theory Spec2Isabelle
  imports Complex_Main "HOL-Library.AList"
begin

section \<open>Python values\<close>

text \<open>
  The payloads that travel between the agents and the orchestrator are typed \<open>Any\<close> or
  \<open>Dict[str, Any]\<close> in the source. They are modelled as trees of Python values: a
  dictionary is an association list in insertion order (looked up with \<open>map_of\<close>, stored
  with \<open>AList.update\<close>), \<open>PObj\<close> stands for any other object (a dataclass instance such as
  \<open>RequirementsState\<close>, a float score), which is truthy, has no \<open>get\<close> and cannot be iterated.
  Timestamps and durations are Python floats; they are modelled as reals, so rounding is
  not part of the model.
\<close>

datatype pyvalue =
    PNone
  | PBool bool
  | PInt int
  | PStr string
  | PList "pyvalue list"
  | PDict "(string \<times> pyvalue) list"
  | PObj string

datatype py_exc = AttributeError | TypeError | KeyError | ZeroDivisionError

text \<open>Truth value testing, as \<open>if x\<close> and \<open>not x\<close> do it.\<close>

fun truthy :: "pyvalue \<Rightarrow> bool" where
  "truthy PNone = False"
| "truthy (PBool b) = b"
| "truthy (PInt i) = (i \<noteq> 0)"
| "truthy (PStr s) = (s \<noteq> [])"
| "truthy (PList xs) = (xs \<noteq> [])"
| "truthy (PDict kvs) = (kvs \<noteq> [])"
| "truthy (PObj c) = True"

text \<open>\<open>x.get(k, d)\<close>: only a dictionary has the method.\<close>

fun py_get :: "pyvalue \<Rightarrow> string \<Rightarrow> pyvalue \<Rightarrow> py_exc + pyvalue" where
  "py_get (PDict kvs) k d = Inr (case map_of kvs k of None \<Rightarrow> d | Some v \<Rightarrow> v)"
| "py_get v k d = Inl AttributeError"

text \<open>\<open>for x in v\<close>: a list yields its elements, a dictionary its keys, a string its
  characters; nothing else is iterable.\<close>

fun py_iter :: "pyvalue \<Rightarrow> py_exc + pyvalue list" where
  "py_iter (PList xs) = Inr xs"
| "py_iter (PDict kvs) = Inr (map (\<lambda>kv. PStr (fst kv)) kvs)"
| "py_iter (PStr s) = Inr (map (\<lambda>c. PStr [c]) s)"
| "py_iter v = Inl TypeError"

text \<open>\<open>str(e)\<close> of an exception raised by the interpreter itself; the model keeps the
  class name as the message.\<close>

fun exc_str :: "py_exc \<Rightarrow> string" where
  "exc_str AttributeError = ''AttributeError''"
| "exc_str TypeError = ''TypeError''"
| "exc_str KeyError = ''KeyError''"
| "exc_str ZeroDivisionError = ''ZeroDivisionError''"

text \<open>How an f-string prints an \<open>Optional[str]\<close>.\<close>

fun str_opt :: "string option \<Rightarrow> string" where
  "str_opt None = ''None''"
| "str_opt (Some s) = s"

text \<open>The slice \<open>xs[-n:]\<close> for a positive \<open>n\<close>: the last \<open>n\<close> elements, or all of a shorter list.\<close>

definition slice_last :: "nat \<Rightarrow> 'a list \<Rightarrow> 'a list" where
  "slice_last n xs = drop (length xs - n) xs"

text \<open>True division \<open>a / b\<close>.\<close>

definition truediv :: "real \<Rightarrow> real \<Rightarrow> py_exc + real" where
  "truediv a b = (if b = 0 then Inl ZeroDivisionError else Inr (a / b))"


section \<open>agents/base.py\<close>

datatype AgentStatus = IDLE | PROCESSING | COMPLETED | ERROR | TIMEOUT

fun AgentStatus_value :: "AgentStatus \<Rightarrow> string" where
  "AgentStatus_value IDLE = ''idle''"
| "AgentStatus_value PROCESSING = ''processing''"
| "AgentStatus_value AgentStatus.COMPLETED = ''completed''"
| "AgentStatus_value ERROR = ''error''"
| "AgentStatus_value AgentStatus.TIMEOUT = ''timeout''"

record AgentMessage =
  id :: string
  sender :: string
  recipient :: string
  content :: pyvalue
  message_type :: string
  timestamp :: real
  metadata :: pyvalue

record AgentResult =
  success :: bool
  data :: pyvalue
  error :: "string option"
  metadata :: pyvalue
  execution_time :: real
  tokens_used :: int

record execution_stats =
  total_executions :: int
  total_time :: real
  total_tokens :: int
  success_count :: int
  error_count :: int

record BaseAgent =
  name :: string
  status :: AgentStatus
  message_history :: "AgentMessage list"
  execution_stats :: execution_stats

text \<open>
  What the abstract \<open>process\<close> coroutine does when awaited: it returns an
  \<open>AgentResult\<close> or raises. \<open>execute\<close> has two handlers, one for
  \<open>asyncio.TimeoutError\<close> and one for \<open>Exception\<close>; \<open>Exception m\<close> is any other exception
  below \<open>Exception\<close> with \<open>str(e) = m\<close>, and \<open>BaseException m\<close> one outside that hierarchy
  (\<open>asyncio.CancelledError\<close>, \<open>KeyboardInterrupt\<close>), which neither handler matches.
\<close>

datatype raised = TimeoutError | Exception string | BaseException string




text \<open>\<open>BaseAgent.add_message\<close>.\<close>

definition add_message :: "BaseAgent \<Rightarrow> AgentMessage \<Rightarrow> BaseAgent" where
  "add_message a m =
     (let h = message_history a @ [m]
      in a\<lparr>message_history := (if length h > 100 then slice_last 50 h else h)\<rparr>)"

text \<open>
  \<open>BaseAgent.get_stats\<close>: a copy of the statistics dictionary extended with five more
  keys. The two quotients are conditional expressions around a true division.
\<close>

record agent_stats = execution_stats +
  name :: string
  status :: string
  message_count :: nat
  average_execution_time :: real
  success_rate :: real

definition get_stats :: "BaseAgent \<Rightarrow> py_exc + agent_stats" where
  "get_stats a =
     (let stats = execution_stats a in
      case (if total_executions stats > 0
            then truediv (total_time stats) (real_of_int (total_executions stats))
            else Inr 0) of
        Inl e \<Rightarrow> Inl e
      | Inr avg \<Rightarrow>
          (case (if total_executions stats > 0
                 then truediv (real_of_int (success_count stats)) (real_of_int (total_executions stats))
                 else Inr 0) of
             Inl e \<Rightarrow> Inl e
           | Inr rate \<Rightarrow>
               Inr \<lparr>total_executions = total_executions stats,
                    total_time = total_time stats,
                    total_tokens = total_tokens stats,
                    success_count = success_count stats,
                    error_count = error_count stats,
                    agent_stats.name = BaseAgent.name a,
                    agent_stats.status = AgentStatus_value (BaseAgent.status a),
                    message_count = length (message_history a),
                    average_execution_time = avg,
                    success_rate = rate\<rparr>))"

text \<open>\<open>BaseAgent.__init__\<close>.\<close>

definition new_agent :: "string \<Rightarrow> BaseAgent" where
  "new_agent n =
     \<lparr>BaseAgent.name = n, BaseAgent.status = IDLE, message_history = [],
      execution_stats = \<lparr>total_executions = 0, total_time = 0, total_tokens = 0,
                         success_count = 0, error_count = 0\<rparr>\<rparr>"



section \<open>orchestrator/workflow.py\<close>

datatype WorkflowStatus = PENDING | RUNNING | COMPLETED | FAILED | TIMEOUT

fun WorkflowStatus_value :: "WorkflowStatus \<Rightarrow> string" where
  "WorkflowStatus_value PENDING = ''pending''"
| "WorkflowStatus_value RUNNING = ''running''"
| "WorkflowStatus_value WorkflowStatus.COMPLETED = ''completed''"
| "WorkflowStatus_value FAILED = ''failed''"
| "WorkflowStatus_value WorkflowStatus.TIMEOUT = ''timeout''"

text \<open>
  \<open>WorkflowState\<close>. \<open>requirements_data\<close> and \<open>plan_data\<close> are assigned from
  \<open>AgentResult.data\<close> and so hold any value; \<open>implementation_data\<close> is created as a
  dictionary and only ever written by key.
\<close>

record WorkflowState =
  workflow_id :: string
  user_request :: string
  current_step :: string
  status :: WorkflowStatus
  requirements_data :: pyvalue
  plan_data :: pyvalue
  implementation_data :: "(string \<times> pyvalue) list"
  started_at :: "real option"
  completed_at :: "real option"
  total_tokens_used :: int
  errors :: "string list"

text \<open>The state \<open>start_workflow\<close> constructs (\<open>__post_init__\<close> fills the defaults).\<close>

definition new_state :: "string \<Rightarrow> string \<Rightarrow> real \<Rightarrow> WorkflowState" where
  "new_state wid req now =
     \<lparr>workflow_id = wid, user_request = req, current_step = ''pending'',
      WorkflowState.status = PENDING, requirements_data = PDict [], plan_data = PDict [],
      implementation_data = [], started_at = Some now, completed_at = None,
      total_tokens_used = 0, errors = []\<rparr>"

text \<open>
  The surroundings of a workflow. \<open>agents env a k x\<close> is the \<open>AgentResult\<close> that
  \<open>self.agents[a].execute(x)\<close> returns when it is awaited by the \<open>k\<close>-th node execution
  of the run (agents call a language model, so the same input need not give the same
  result twice); \<open>clock env k\<close> is what \<open>time.time()\<close> reads there.
\<close>

record env =
  agents :: "string \<Rightarrow> nat \<Rightarrow> pyvalue \<Rightarrow> AgentResult"
  clock :: "nat \<Rightarrow> real"

text \<open>The handler \<open>except Exception as e\<close> shared by the four nodes.\<close>

definition node_except :: "string \<Rightarrow> py_exc \<Rightarrow> WorkflowState \<Rightarrow> WorkflowState" where
  "node_except label e s =
     s\<lparr>errors := errors s @ [label @ exc_str e], WorkflowState.status := FAILED\<rparr>"

definition qa_intake_input :: "WorkflowState \<Rightarrow> py_exc + pyvalue" where
  "qa_intake_input s =
     (if \<not> truthy (requirements_data s) then Inr (PStr (user_request s))
      else case py_get (requirements_data s) ''requirements_state'' PNone of
             Inl e \<Rightarrow> Inl e
           | Inr rs \<Rightarrow>
               (case py_get (requirements_data s) ''user_responses'' (PDict []) of
                  Inl e \<Rightarrow> Inl e
                | Inr ur \<Rightarrow> Inr (PDict [(''requirements_state'', rs), (''responses'', ur)])))"

definition qa_intake_node :: "env \<Rightarrow> nat \<Rightarrow> WorkflowState \<Rightarrow> WorkflowState" where
  "qa_intake_node env k s0 =
     (let s = s0\<lparr>current_step := ''qa_intake''\<rparr> in
      case qa_intake_input s of
        Inl e \<Rightarrow> node_except ''QA Intake error: '' e s
      | Inr input_data \<Rightarrow>
          (let result = agents env ''qa_intake'' k input_data in
           if success result
           then s\<lparr>requirements_data := data result,
                  total_tokens_used := total_tokens_used s + tokens_used result\<rparr>
           else s\<lparr>errors := errors s @ [''QA Intake failed: '' @ str_opt (error result)],
                  WorkflowState.status := FAILED\<rparr>))"

definition manager_node :: "env \<Rightarrow> nat \<Rightarrow> WorkflowState \<Rightarrow> WorkflowState" where
  "manager_node env k s0 =
     (let s = s0\<lparr>current_step := ''manager''\<rparr>;
          result = agents env ''manager'' k (requirements_data s)
      in if success result
         then s\<lparr>plan_data := data result,
                total_tokens_used := total_tokens_used s + tokens_used result\<rparr>
         else s\<lparr>errors := errors s @ [''Manager failed: '' @ str_opt (error result)],
                WorkflowState.status := FAILED\<rparr>)"

text \<open>
  The loop \<open>for task in tasks: if task.get("status") == "pending": ...; break\<close>: the index
  of the first pending task, if any; a task before it that has no \<open>get\<close> raises.
\<close>

fun find_pending :: "pyvalue list \<Rightarrow> py_exc + nat option" where
  "find_pending [] = Inr None"
| "find_pending (t # ts) =
     (case py_get t ''status'' PNone of
        Inl e \<Rightarrow> Inl e
      | Inr st \<Rightarrow>
          if st = PStr ''pending'' then Inr (Some 0)
          else (case find_pending ts of
                  Inl e \<Rightarrow> Inl e
                | Inr None \<Rightarrow> Inr None
                | Inr (Some i) \<Rightarrow> Inr (Some (Suc i))))"

text \<open>The comprehension \<open>[t for t in tasks if t.get("status") == "completed"]\<close>.\<close>

fun completed_tasks :: "pyvalue list \<Rightarrow> py_exc + pyvalue list" where
  "completed_tasks [] = Inr []"
| "completed_tasks (t # ts) =
     (case py_get t ''status'' PNone of
        Inl e \<Rightarrow> Inl e
      | Inr st \<Rightarrow>
          (case completed_tasks ts of
             Inl e \<Rightarrow> Inl e
           | Inr cs \<Rightarrow> Inr (if st = PStr ''completed'' then t # cs else cs)))"

text \<open>
  \<open>plan = state.plan_data.get("implementation_plan", {})\<close> followed by
  \<open>tasks = plan.get("tasks", [])\<close> and the iteration over \<open>tasks\<close>.
\<close>

definition plan_tasks :: "WorkflowState \<Rightarrow> py_exc + pyvalue \<times> pyvalue list" where
  "plan_tasks s =
     (case py_get (plan_data s) ''implementation_plan'' (PDict []) of
        Inl e \<Rightarrow> Inl e
      | Inr plan \<Rightarrow>
          (case py_get plan ''tasks'' (PList []) of
             Inl e \<Rightarrow> Inl e
           | Inr tasks \<Rightarrow>
               (case py_iter tasks of
                  Inl e \<Rightarrow> Inl e
                | Inr ts \<Rightarrow> Inr (plan, ts))))"

text \<open>
  \<open>pending_task["status"] = "completed"\<close>. The task is an element of the list stored
  under \<open>tasks\<close> in the dictionary stored under \<open>implementation_plan\<close> in \<open>plan_data\<close>, so
  the assignment is an update along that path. A pending task is only ever found in a
  list of dictionaries reached through both keys; the other equations are never used.
\<close>

fun set_status_completed :: "pyvalue \<Rightarrow> pyvalue" where
  "set_status_completed (PDict kvs) = PDict (AList.update ''status'' (PStr ''completed'') kvs)"
| "set_status_completed v = v"

fun update_task :: "nat \<Rightarrow> pyvalue \<Rightarrow> pyvalue" where
  "update_task i (PList ts) = PList (ts[i := set_status_completed (ts ! i)])"
| "update_task i v = v"

fun update_key :: "string \<Rightarrow> (pyvalue \<Rightarrow> pyvalue) \<Rightarrow> pyvalue \<Rightarrow> pyvalue" where
  "update_key k f (PDict kvs) =
     (case map_of kvs k of None \<Rightarrow> PDict kvs | Some v \<Rightarrow> PDict (AList.update k (f v) kvs))"
| "update_key k f v = v"

definition mark_completed :: "nat \<Rightarrow> pyvalue \<Rightarrow> pyvalue" where
  "mark_completed i pd = update_key ''implementation_plan'' (update_key ''tasks'' (update_task i)) pd"

text \<open>The input dictionary the code node builds for the agent.\<close>

definition code_input :: "pyvalue \<Rightarrow> pyvalue list \<Rightarrow> nat \<Rightarrow> py_exc + pyvalue" where
  "code_input plan ts i =
     (case py_get plan ''project_overview'' (PDict []) of
        Inl e \<Rightarrow> Inl e
      | Inr po \<Rightarrow>
          (case py_get plan ''technical_specifications'' (PDict []) of
             Inl e \<Rightarrow> Inl e
           | Inr tsp \<Rightarrow>
               (case completed_tasks ts of
                  Inl e \<Rightarrow> Inl e
                | Inr cs \<Rightarrow>
                    Inr (PDict [(''task'', ts ! i),
                                (''project_context'',
                                 PDict [(''project_overview'', po),
                                        (''technical_specifications'', tsp),
                                        (''completed_tasks'', PList cs)])]))))"

text \<open>
  The success branch of the code node: append the result to
  \<open>implementation_data["implementations"]\<close> (created as an empty list when the key is
  absent), add the tokens, mark the task completed.
\<close>

definition code_success :: "AgentResult \<Rightarrow> nat \<Rightarrow> WorkflowState \<Rightarrow> WorkflowState" where
  "code_success result i s =
     (case (case map_of (implementation_data s) ''implementations'' of
              None \<Rightarrow> Inr [data result]
            | Some (PList xs) \<Rightarrow> Inr (xs @ [data result])
            | Some v \<Rightarrow> Inl AttributeError) of
        Inl e \<Rightarrow> node_except ''Code error: '' e s
      | Inr impls \<Rightarrow>
          s\<lparr>implementation_data :=
               AList.update ''implementations'' (PList impls) (implementation_data s),
             total_tokens_used := total_tokens_used s + tokens_used result,
             plan_data := mark_completed i (plan_data s)\<rparr>)"

text \<open>The failure branch of the code node.\<close>

definition code_failure :: "AgentResult \<Rightarrow> WorkflowState \<Rightarrow> WorkflowState" where
  "code_failure result s0 =
     (let s = s0\<lparr>errors := errors s0 @ [''Code generation failed: '' @ str_opt (error result)]\<rparr> in
      if \<not> truthy (data result) then s\<lparr>WorkflowState.status := FAILED\<rparr>
      else case py_get (data result) ''revision_required'' PNone of
             Inl e \<Rightarrow> node_except ''Code error: '' e s
           | Inr rr \<Rightarrow>
               if truthy rr
               then (case py_get (data result) ''quality_issues'' (PList []) of
                       Inl e \<Rightarrow> node_except ''Code error: '' e s
                     | Inr qi \<Rightarrow>
                         s\<lparr>implementation_data :=
                              AList.update ''quality_issues'' qi
                                (AList.update ''revision_required'' (PBool True)
                                   (implementation_data s))\<rparr>)
               else s\<lparr>WorkflowState.status := FAILED\<rparr>)"

definition code_node :: "env \<Rightarrow> nat \<Rightarrow> WorkflowState \<Rightarrow> WorkflowState" where
  "code_node env k s0 =
     (let s = s0\<lparr>current_step := ''code''\<rparr> in
      case plan_tasks s of
        Inl e \<Rightarrow> node_except ''Code error: '' e s
      | Inr (plan, ts) \<Rightarrow>
          (case find_pending ts of
             Inl e \<Rightarrow> node_except ''Code error: '' e s
           | Inr None \<Rightarrow>
               s\<lparr>implementation_data :=
                    AList.update ''all_tasks_complete'' (PBool True) (implementation_data s)\<rparr>
           | Inr (Some i) \<Rightarrow>
               (case code_input plan ts i of
                  Inl e \<Rightarrow> node_except ''Code error: '' e s
                | Inr input_data \<Rightarrow>
                    (let result = agents env ''code'' k input_data in
                     if success result then code_success result i s
                     else code_failure result s))))"

definition review_node :: "env \<Rightarrow> nat \<Rightarrow> WorkflowState \<Rightarrow> WorkflowState" where
  "review_node env k s0 =
     (let s = s0\<lparr>current_step := ''review''\<rparr> in
      case plan_tasks s of
        Inl e \<Rightarrow> node_except ''Review error: '' e s
      | Inr (plan, ts) \<Rightarrow>
          (case completed_tasks ts of
             Inl e \<Rightarrow> node_except ''Review error: '' e s
           | Inr cs \<Rightarrow>
               if length cs = length ts \<and> length ts > 0
               then s\<lparr>implementation_data :=
                        AList.update ''review_status'' (PStr ''approved'') (implementation_data s),
                      WorkflowState.status := WorkflowStatus.COMPLETED,
                      completed_at := Some (clock env k)\<rparr>
               else s\<lparr>implementation_data :=
                        AList.update ''review_status'' (PStr ''continue_implementation'')
                          (implementation_data s)\<rparr>))"

subsection \<open>Routing conditions\<close>

text \<open>\<open>d.get(k)\<close> on a dictionary.\<close>

definition dict_get :: "(string \<times> pyvalue) list \<Rightarrow> string \<Rightarrow> pyvalue" where
  "dict_get d k = (case map_of d k of None \<Rightarrow> PNone | Some v \<Rightarrow> v)"

definition qa_routing_condition :: "WorkflowState \<Rightarrow> py_exc + string" where
  "qa_routing_condition s =
     (if WorkflowState.status s = FAILED then Inr ''error''
      else if \<not> truthy (requirements_data s) then Inr ''error''
      else case py_get (requirements_data s) ''next_action'' PNone of
             Inl e \<Rightarrow> Inl e
           | Inr na \<Rightarrow>
               if na = PStr ''proceed_to_planning'' then Inr ''proceed_to_planning''
               else if na = PStr ''await_user_responses'' then Inr ''continue_qa''
               else Inr ''error'')"

definition manager_routing_condition :: "WorkflowState \<Rightarrow> py_exc + string" where
  "manager_routing_condition s =
     (if WorkflowState.status s = FAILED then Inr ''error''
      else if \<not> truthy (plan_data s) then Inr ''error''
      else case py_get (plan_data s) ''next_action'' PNone of
             Inl e \<Rightarrow> Inl e
           | Inr na \<Rightarrow>
               if na = PStr ''begin_implementation'' then Inr ''proceed_to_code''
               else Inr ''error'')"

definition code_routing_condition :: "WorkflowState \<Rightarrow> py_exc + string" where
  "code_routing_condition s =
     (if WorkflowState.status s = FAILED then Inr ''error''
      else if truthy (dict_get (implementation_data s) ''revision_required'') then Inr ''revise_code''
      else if truthy (dict_get (implementation_data s) ''all_tasks_complete'') then Inr ''complete''
      else Inr ''proceed_to_review'')"

definition review_routing_condition :: "WorkflowState \<Rightarrow> py_exc + string" where
  "review_routing_condition s =
     (let review_status = dict_get (implementation_data s) ''review_status'' in
      if review_status = PStr ''approved'' then Inr ''approve''
      else if review_status = PStr ''continue_implementation'' then Inr ''request_revision''
      else Inr ''back_to_planning'')"

subsection \<open>The graph of \<open>_build_workflow_graph\<close>\<close>

datatype node = qa_intake | manager | code | review

datatype target = Node node | END

fun run_node :: "env \<Rightarrow> nat \<Rightarrow> node \<Rightarrow> WorkflowState \<Rightarrow> WorkflowState" where
  "run_node env k qa_intake s = qa_intake_node env k s"
| "run_node env k manager s = manager_node env k s"
| "run_node env k code s = code_node env k s"
| "run_node env k review s = review_node env k s"

fun routing_condition :: "node \<Rightarrow> WorkflowState \<Rightarrow> py_exc + string" where
  "routing_condition qa_intake s = qa_routing_condition s"
| "routing_condition manager s = manager_routing_condition s"
| "routing_condition code s = code_routing_condition s"
| "routing_condition review s = review_routing_condition s"

text \<open>The path maps given to \<open>add_conditional_edges\<close>.\<close>

fun conditional_edges :: "node \<Rightarrow> (string \<times> target) list" where
  "conditional_edges qa_intake =
     [(''continue_qa'', Node qa_intake), (''proceed_to_planning'', Node manager), (''error'', END)]"
| "conditional_edges manager =
     [(''proceed_to_code'', Node code), (''revise_plan'', Node manager), (''error'', END)]"
| "conditional_edges code =
     [(''proceed_to_review'', Node review), (''revise_code'', Node code),
      (''complete'', END), (''error'', END)]"
| "conditional_edges review =
     [(''approve'', END), (''request_revision'', Node code), (''back_to_planning'', Node manager)]"

text \<open>
  \<open>workflow_graph.ainvoke(state)\<close>. The compiled graph is the library's; what the source
  fixes is the entry point, the node functions and, after each node, the routing
  condition whose label selects the next node or \<open>END\<close> in the path map. The run executes
  that, on the one state object the nodes mutate and return. \<open>fuel\<close> is the number of
  node executions the run is followed for (the library, too, stops a run after a
  configurable number of steps): \<open>None\<close> is a run still going after that many, and
  nothing is said about how it ends. \<open>visited\<close> lists the nodes executed, \<open>fault\<close> is the
  message of an exception that left the run (a routing condition that raised, a label
  without an edge), and \<open>final\<close> the state at that point.
\<close>

record graph_run =
  visited :: "node list"
  fault :: "string option"
  final :: WorkflowState

fun run_graph :: "env \<Rightarrow> nat \<Rightarrow> nat \<Rightarrow> node \<Rightarrow> WorkflowState \<Rightarrow> graph_run option" where
  "run_graph env 0 k n s = None"
| "run_graph env (Suc fuel) k n s =
     (let s' = run_node env k n s in
      case routing_condition n s' of
        Inl e \<Rightarrow> Some \<lparr>visited = [n], fault = Some (exc_str e), final = s'\<rparr>
      | Inr label \<Rightarrow>
          (case map_of (conditional_edges n) label of
             None \<Rightarrow> Some \<lparr>visited = [n], fault = Some label, final = s'\<rparr>
           | Some END \<Rightarrow> Some \<lparr>visited = [n], fault = None, final = s'\<rparr>
           | Some (Node n') \<Rightarrow>
               map_option (\<lambda>r. r\<lparr>visited := n # visited r\<rparr>)
                 (run_graph env fuel (Suc k) n' s')))"

subsection \<open>The workflow manager\<close>

text \<open>
  The registry \<open>active_workflows\<close> is a dictionary from workflow id to state: an
  association list, \<open>len\<close> its length, assignment \<open>AList.update\<close>.
\<close>

record WorkflowManager =
  active_workflows :: "(string \<times> WorkflowState) list"
  max_concurrent_workflows :: int

text \<open>\<open>RuntimeError(f"Maximum concurrent workflows ({n}) reached")\<close>.\<close>

datatype start_error = Maximum_concurrent_workflows_reached int

text \<open>
  \<open>start_workflow\<close>. \<open>wid\<close> is the string \<open>uuid.uuid4()\<close> produced and \<open>now\<close> the clock
  reading. The call returns the new id or raises, and leaves the manager in the state
  given second. The background task it schedules is \<open>execute_workflow\<close> below.
\<close>

definition start_workflow ::
    "WorkflowManager \<Rightarrow> string \<Rightarrow> string \<Rightarrow> real \<Rightarrow> (start_error + string) \<times> WorkflowManager" where
  "start_workflow m wid req now =
     (if int (length (active_workflows m)) \<ge> max_concurrent_workflows m
      then (Inl (Maximum_concurrent_workflows_reached (max_concurrent_workflows m)), m)
      else (Inr wid,
            m\<lparr>active_workflows := AList.update wid (new_state wid req now) (active_workflows m)\<rparr>))"

text \<open>
  \<open>_execute_workflow\<close>. An unknown id raises \<open>KeyError\<close> inside the \<open>try\<close>; the handler
  then finds no entry to mark and changes nothing.
\<close>

definition execute_workflow :: "env \<Rightarrow> nat \<Rightarrow> WorkflowManager \<Rightarrow> string \<Rightarrow> WorkflowManager option" where
  "execute_workflow env fuel m wid =
     (case map_of (active_workflows m) wid of
        None \<Rightarrow> Some m
      | Some st \<Rightarrow>
          (case run_graph env fuel 0 qa_intake (st\<lparr>WorkflowState.status := RUNNING\<rparr>) of
             None \<Rightarrow> None
           | Some r \<Rightarrow>
               (case fault r of
                  None \<Rightarrow>
                    Some (m\<lparr>active_workflows :=
                      AList.update wid
                        (if WorkflowState.status (final r) \<noteq> FAILED
                         then (final r)\<lparr>WorkflowState.status := WorkflowStatus.COMPLETED,
                                        completed_at := Some (clock env (length (visited r)))\<rparr>
                         else final r)
                        (active_workflows m)\<rparr>)
                | Some e \<Rightarrow>
                    Some (m\<lparr>active_workflows :=
                      AList.update wid
                        ((final r)\<lparr>WorkflowState.status := FAILED,
                                   errors := errors (final r) @ [''Execution error: '' @ e]\<rparr>)
                        (active_workflows m)\<rparr>))))"


section \<open>Status queries: objects and references\<close>

text \<open>
  \<open>get_workflow_status\<close> returns \<open>state.to_dict()\<close>, that is \<open>dataclasses.asdict(state)\<close>
  with the status replaced by its string. Whether the caller can reach an object of the
  stored state through the result is a question about references, which the value
  trees above do not show. Here every mutable object (a dictionary, a list, a dataclass
  instance with its fields in order) lives at an address of a heap, a value is an atom or
  a reference, and a new object is allocated at the end of the heap. The registry maps a
  workflow id to the address of its \<open>WorkflowState\<close> instance.
\<close>

datatype hval = HNone | HBool bool | HInt int | HFloat real | HStr string
  | HStatus WorkflowStatus | HRef nat

datatype hobj = HDict "(string \<times> hval) list" | HList "hval list" | HData "(string \<times> hval) list"

type_synonym heap = "hobj list"

text \<open>
  The recursion of \<open>dataclasses.asdict\<close> (the standard library's \<open>_asdict_inner\<close>): a
  dataclass instance becomes a new dictionary of its converted fields, a list a new list
  of its converted elements, a dictionary a new dictionary of its converted values (the
  keys are strings), and anything else is deep-copied, which returns an atom as it is.
  \<open>d\<close> is the recursion depth left; \<open>None\<close> is a call that raises (the depth exhausted on
  a cyclic payload).
\<close>

fun asdict_inner :: "nat \<Rightarrow> heap \<Rightarrow> hval \<Rightarrow> (heap \<times> hval) option"
  and asdict_items :: "nat \<Rightarrow> heap \<Rightarrow> hval list \<Rightarrow> (heap \<times> hval list) option" where
  "asdict_inner 0 h (HRef a) = None"
| "asdict_inner (Suc d) h (HRef a) =
     (if a < length h then
        (case h ! a of
           HList vs \<Rightarrow>
             (case asdict_items d h vs of
                None \<Rightarrow> None
              | Some (h', vs') \<Rightarrow> Some (h' @ [HList vs'], HRef (length h')))
         | HDict kvs \<Rightarrow>
             (case asdict_items d h (map snd kvs) of
                None \<Rightarrow> None
              | Some (h', vs') \<Rightarrow> Some (h' @ [HDict (zip (map fst kvs) vs')], HRef (length h')))
         | HData kvs \<Rightarrow>
             (case asdict_items d h (map snd kvs) of
                None \<Rightarrow> None
              | Some (h', vs') \<Rightarrow> Some (h' @ [HDict (zip (map fst kvs) vs')], HRef (length h'))))
      else None)"
| "asdict_inner d h v = Some (h, v)"
| "asdict_items d h [] = Some (h, [])"
| "asdict_items d h (v # vs) =
     (case asdict_inner d h v of
        None \<Rightarrow> None
      | Some (h1, v') \<Rightarrow>
          (case asdict_items d h1 vs of
             None \<Rightarrow> None
           | Some (h2, vs') \<Rightarrow> Some (h2, v' # vs')))"

text \<open>
  \<open>WorkflowState.to_dict\<close>: \<open>data = asdict(self)\<close>, then
  \<open>data["status"] = self.status.value\<close>. \<open>asdict\<close> raises on anything but a dataclass
  instance.
\<close>

definition to_dict :: "nat \<Rightarrow> heap \<Rightarrow> nat \<Rightarrow> (heap \<times> hval) option" where
  "to_dict d h a =
     (case asdict_inner d h (HRef a) of
        Some (h', HRef a') \<Rightarrow>
          (case (h ! a, h' ! a') of
             (HData fs, HDict kvs) \<Rightarrow>
               (case map_of fs ''status'' of
                  Some (HStatus st) \<Rightarrow>
                    Some (h'[a' := HDict (AList.update ''status'' (HStr (WorkflowStatus_value st)) kvs)],
                          HRef a')
                | _ \<Rightarrow> None)
           | _ \<Rightarrow> None)
      | _ \<Rightarrow> None)"

text \<open>\<open>get_workflow_status\<close>: \<open>None\<close> (here \<open>HNone\<close>) for an id that is not registered.\<close>

definition get_workflow_status ::
    "nat \<Rightarrow> (string \<times> nat) list \<Rightarrow> heap \<Rightarrow> string \<Rightarrow> (heap \<times> hval) option" where
  "get_workflow_status d reg h wid =
     (case map_of reg wid of
        None \<Rightarrow> Some (h, HNone)
      | Some a \<Rightarrow> to_dict d h a)"


section \<open>Notions used to state the properties\<close>



text \<open>The terminal statuses, and the number of registered workflows that are in none.\<close>

fun is_terminal :: "WorkflowStatus \<Rightarrow> bool" where
  "is_terminal WorkflowStatus.COMPLETED = True"
| "is_terminal FAILED = True"
| "is_terminal WorkflowStatus.TIMEOUT = True"
| "is_terminal st = False"

definition live_workflows :: "WorkflowManager \<Rightarrow> nat" where
  "live_workflows m =
     length (filter (\<lambda>e. \<not> is_terminal (WorkflowState.status (snd e))) (active_workflows m))"


text \<open>
  Addresses. \<open>obj_vals\<close> lists the values an object holds; \<open>val_within lo hi\<close> holds of an
  atom and of a reference into \<open>[lo, hi)\<close>; a heap is closed when no object refers beyond
  it; \<open>extends h h'\<close> says that \<open>h'\<close> is \<open>h\<close> followed by new objects that refer to new
  objects only; \<open>reach h v\<close> is the set of addresses of the objects that can be reached
  from the value \<open>v\<close>, the structure a holder of \<open>v\<close> can read and mutate.
\<close>

fun obj_vals :: "hobj \<Rightarrow> hval list" where
  "obj_vals (HDict kvs) = map snd kvs"
| "obj_vals (HList vs) = vs"
| "obj_vals (HData kvs) = map snd kvs"

fun val_within :: "nat \<Rightarrow> nat \<Rightarrow> hval \<Rightarrow> bool" where
  "val_within lo hi (HRef a) = (lo \<le> a \<and> a < hi)"
| "val_within lo hi v = True"

definition obj_within :: "nat \<Rightarrow> nat \<Rightarrow> hobj \<Rightarrow> bool" where
  "obj_within lo hi ob = list_all (val_within lo hi) (obj_vals ob)"

definition heap_closed :: "heap \<Rightarrow> bool" where
  "heap_closed h = list_all (obj_within 0 (length h)) h"

definition extends :: "heap \<Rightarrow> heap \<Rightarrow> bool" where
  "extends h h' = (\<exists>ext. h' = h @ ext \<and> list_all (obj_within (length h) (length h')) ext)"

inductive_set reach :: "heap \<Rightarrow> hval \<Rightarrow> nat set" for h :: heap and v :: hval where
  root: "v = HRef a \<Longrightarrow> a \<in> reach h v"
| step: "a \<in> reach h v \<Longrightarrow> a < length h \<Longrightarrow> HRef b \<in> set (obj_vals (h ! a)) \<Longrightarrow> b \<in> reach h v"


section \<open>Concrete inputs\<close>

definition msg :: "string \<Rightarrow> AgentMessage" where
  "msg i = \<lparr>id = i, sender = ''manager'', recipient = ''code'', content = PNone,
            message_type = ''note'', timestamp = 0, AgentMessage.metadata = PNone\<rparr>"

definition hundred_messages :: BaseAgent where
  "hundred_messages = (new_agent ''code'')\<lparr>message_history := replicate 100 (msg ''old'')\<rparr>"

definition four_runs :: BaseAgent where
  "four_runs = (new_agent ''code'')\<lparr>execution_stats :=
     \<lparr>total_executions = 4, total_time = 3, total_tokens = 10, success_count = 3, error_count = 1\<rparr>\<rparr>"

definition result_ok :: "pyvalue \<Rightarrow> int \<Rightarrow> AgentResult" where
  "result_ok d t = \<lparr>success = True, data = d, error = None, AgentResult.metadata = PNone,
                    execution_time = 1, tokens_used = t\<rparr>"



definition proceed_payload :: pyvalue where
  "proceed_payload = PDict [(''requirements_summary'', PDict []),
                            (''next_action'', PStr ''proceed_to_planning'')]"

definition one_task_plan :: pyvalue where
  "one_task_plan =
     PDict [(''implementation_plan'',
             PDict [(''tasks'', PList [PDict [(''id'', PStr ''task_1''), (''status'', PStr ''pending'')]])]),
            (''next_action'', PStr ''begin_implementation''),
            (''status'', PStr ''plan_ready'')]"

definition code_payload :: pyvalue where
  "code_payload = PDict [(''next_action'', PStr ''deploy_code''),
                         (''status'', PStr ''implementation_complete'')]"

text \<open>Agents that answer the same whenever they are asked.\<close>

definition fixed_env :: "AgentResult \<Rightarrow> AgentResult \<Rightarrow> AgentResult \<Rightarrow> env" where
  "fixed_env qa mg cd =
     \<lparr>agents = (\<lambda>a k x. if a = ''qa_intake'' then qa else if a = ''manager'' then mg else cd),
      clock = (\<lambda>k. real k)\<rparr>"

text \<open>Intake proceeds at once, the plan has one task, the code agent implements it.\<close>

definition scenario_env :: env where
  "scenario_env =
     fixed_env (result_ok proceed_payload 10) (result_ok one_task_plan 150) (result_ok code_payload 7)"





definition negative_env :: env where
  "negative_env =
     fixed_env (result_ok proceed_payload (- 5)) (result_ok one_task_plan 150)
       (result_ok code_payload 7)"

definition running_state :: WorkflowState where
  "running_state = (new_state ''w1'' ''build a calculator'' 0)\<lparr>WorkflowState.status := RUNNING\<rparr>"


text \<open>A manager holding one workflow that was just started.\<close>

definition one_pending :: WorkflowManager where
  "one_pending = \<lparr>active_workflows = [(''w1'', new_state ''w1'' ''build a calculator'' 0)],
                  max_concurrent_workflows = 5\<rparr>"




text \<open>A manager at the default ceiling of five whose five workflows have all finished.\<close>

definition finished :: "string \<Rightarrow> WorkflowStatus \<Rightarrow> string \<times> WorkflowState" where
  "finished wid st =
     (wid, (new_state wid ''build a calculator'' 0)\<lparr>WorkflowState.status := st,
                                                     completed_at := Some 1\<rparr>)"

definition full_of_finished :: WorkflowManager where
  "full_of_finished =
     \<lparr>active_workflows =
        [finished ''w1'' WorkflowStatus.COMPLETED, finished ''w2'' WorkflowStatus.COMPLETED,
         finished ''w3'' FAILED, finished ''w4'' WorkflowStatus.COMPLETED,
         finished ''w5'' WorkflowStatus.COMPLETED],
      max_concurrent_workflows = 5\<rparr>"


text \<open>
  A heap with one workflow state at address 6, whose requirements hold a nested
  dataclass instance with a list, and the heap after one status query.
\<close>

definition heap0 :: heap where
  "heap0 = [HDict [(''next_action'', HStr ''proceed_to_planning''), (''requirements_state'', HRef 1)],
            HData [(''user_request'', HStr ''build a calculator''), (''features'', HRef 2)],
            HList [HStr ''add'', HStr ''subtract''],
            HDict [],
            HDict [],
            HList [],
            HData [(''workflow_id'', HStr ''w1''), (''user_request'', HStr ''build a calculator''),
                   (''current_step'', HStr ''qa_intake''), (''status'', HStatus RUNNING),
                   (''requirements_data'', HRef 0), (''plan_data'', HRef 3),
                   (''implementation_data'', HRef 4), (''started_at'', HFloat 0),
                   (''completed_at'', HNone), (''total_tokens_used'', HInt 10), (''errors'', HRef 5)]]"

definition heap1 :: heap where
  "heap1 = heap0 @
     [HList [HStr ''add'', HStr ''subtract''],
      HDict [(''user_request'', HStr ''build a calculator''), (''features'', HRef 7)],
      HDict [(''next_action'', HStr ''proceed_to_planning''), (''requirements_state'', HRef 8)],
      HDict [], HDict [], HList [],
      HDict [(''workflow_id'', HStr ''w1''), (''user_request'', HStr ''build a calculator''),
             (''current_step'', HStr ''qa_intake''), (''status'', HStr ''running''),
             (''requirements_data'', HRef 9), (''plan_data'', HRef 10),
             (''implementation_data'', HRef 11), (''started_at'', HFloat 0),
             (''completed_at'', HNone), (''total_tokens_used'', HInt 10), (''errors'', HRef 12)]]"


section \<open>Properties of the base agent\<close>

lemma length_slice_last: "length (slice_last n xs) = min n (length xs)"
  by (simp add: slice_last_def)

lemma add_message_length: "length (message_history (add_message a m)) \<le> 100"
  by (simp add: add_message_def Let_def length_slice_last)

lemma add_message_seq_length:
  "length (message_history (foldl add_message (add_message a m) ms)) \<le> 100"
proof (induction ms arbitrary: a m)
  case Nil
  show ?case by (simp add: add_message_length)
next
  case (Cons x xs)
  show ?case using Cons.IH [of "add_message a m" x] by simp
qed

text \<open>
  C9. After any call of \<open>add_message\<close>, and so after any non-empty sequence of calls on any
  agent, the history holds at most 100 messages; a call whose append takes the history
  over 100 leaves exactly the 50 most recent messages (the new one last), in their order.
\<close>

theorem add_message_history_bounded:
  "length (message_history (foldl add_message (add_message a m) ms)) \<le> 100
   \<and> (length (message_history a @ [m]) > 100 \<longrightarrow>
        length (message_history (add_message a m)) = 50
        \<and> message_history (add_message a m)
            = drop (length (message_history a @ [m]) - 50) (message_history a @ [m]))"
  by (simp add: add_message_seq_length) (simp add: add_message_def slice_last_def)

theorem add_message_history_bounded_witness:
  "length (message_history hundred_messages @ [msg ''new'']) > 100
   \<and> message_history (add_message hundred_messages (msg ''new''))
      = replicate 49 (msg ''old'') @ [msg ''new'']"
  using add_message_history_bounded [of hundred_messages "msg ''new''" "[]"]
  by (simp add: hundred_messages_def)

text \<open>
  C10. \<open>get_stats\<close> returns on every statistics state, never raising
  \<open>ZeroDivisionError\<close>: with \<open>total_executions = 0\<close> both quotients are reported as 0, and
  with a positive \<open>total_executions\<close> they are \<open>total_time / total_executions\<close> and
  \<open>success_count / total_executions\<close>.
\<close>

theorem get_stats_total:
  "\<exists>r. get_stats a = Inr r
     \<and> (total_executions (execution_stats a) = 0 \<longrightarrow>
          average_execution_time r = 0 \<and> success_rate r = 0)
     \<and> (total_executions (execution_stats a) > 0 \<longrightarrow>
          average_execution_time r
            = total_time (execution_stats a) / real_of_int (total_executions (execution_stats a))
          \<and> success_rate r
            = real_of_int (success_count (execution_stats a))
                / real_of_int (total_executions (execution_stats a)))"
  by (simp add: get_stats_def truediv_def Let_def)

theorem get_stats_total_witness:
  "(\<exists>r. get_stats (new_agent ''qa_intake'') = Inr r
        \<and> total_executions (execution_stats (new_agent ''qa_intake'')) = 0
        \<and> average_execution_time r = 0 \<and> success_rate r = 0)
   \<and> (\<exists>r. get_stats four_runs = Inr r
        \<and> total_executions (execution_stats four_runs) > 0
        \<and> average_execution_time r = 3 / 4 \<and> success_rate r = 3 / 4)"
  using get_stats_total [of "new_agent ''qa_intake''"] get_stats_total [of four_runs]
  by (simp add: new_agent_def four_runs_def)





section \<open>Properties of the workflow\<close>

subsection \<open>Steps of a run\<close>

lemma run_graph_Suc_cases:
  assumes "run_graph env (Suc fuel) k n s = Some r"
  obtains (raised) e where "routing_condition n (run_node env k n s) = Inl e"
      "final r = run_node env k n s" "visited r = [n]" "fault r = Some (exc_str e)"
  | (no_edge) l where "routing_condition n (run_node env k n s) = Inr l"
      "map_of (conditional_edges n) l = None"
      "final r = run_node env k n s" "visited r = [n]" "fault r = Some l"
  | (stop) l where "routing_condition n (run_node env k n s) = Inr l"
      "map_of (conditional_edges n) l = Some END"
      "final r = run_node env k n s" "visited r = [n]" "fault r = None"
  | (continue) l n' r' where "routing_condition n (run_node env k n s) = Inr l"
      "map_of (conditional_edges n) l = Some (Node n')"
      "run_graph env fuel (Suc k) n' (run_node env k n s) = Some r'"
      "final r = final r'" "fault r = fault r'" "visited r = n # visited r'"
  using assms
  by (auto simp: Let_def split: sum.splits option.splits target.splits)

lemma dict_get_update [simp]: "dict_get (AList.update k v d) k = v"
  by (simp add: dict_get_def update_conv')

lemma dict_get_update_other [simp]: "k' \<noteq> k \<Longrightarrow> dict_get (AList.update k v d) k' = dict_get d k'"
  by (simp add: dict_get_def update_conv')

lemma plan_tasks_current_step [simp]: "plan_tasks (s\<lparr>current_step := c\<rparr>) = plan_tasks s"
  by (simp add: plan_tasks_def)

subsection \<open>Unrecognized next action (C1)\<close>


subsection \<open>Retry edges (C2)\<close>









subsection \<open>Capacity (C3)\<close>

lemma start_workflow_rejects_iff_full:
  "(\<exists>e. fst (start_workflow m wid req now) = Inl e)
     = (max_concurrent_workflows m \<le> int (length (active_workflows m)))"
  by (simp add: start_workflow_def)

lemma start_workflow_rejected_unchanged:
  "fst (start_workflow m wid req now) = Inl e \<Longrightarrow> snd (start_workflow m wid req now) = m"
  by (simp add: start_workflow_def split: if_splits)

lemma start_workflow_accepted:
  "int (length (active_workflows m)) < max_concurrent_workflows m \<Longrightarrow>
   start_workflow m wid req now
     = (Inr wid, m\<lparr>active_workflows := AList.update wid (new_state wid req now) (active_workflows m)\<rparr>)"
  by (simp add: start_workflow_def)

text \<open>
  C3 says that a start is rejected exactly when the number of live, non-terminal
  workflows has reached \<open>max_concurrent_workflows\<close>, terminal entries not counting. The
  code compares \<open>len(self.active_workflows)\<close> with the ceiling, and finished workflows
  are never taken out of that dictionary: with five finished workflows registered and
  none live, a start at ceiling five is rejected. (The rejected call does leave the
  manager unchanged.)
\<close>

theorem start_workflow_counts_terminal_entries:
  "live_workflows full_of_finished = 0
   \<and> max_concurrent_workflows full_of_finished = 5
   \<and> start_workflow full_of_finished ''w6'' ''build a calculator'' 9
       = (Inl (Maximum_concurrent_workflows_reached 5), full_of_finished)"
  by (simp add: start_workflow_def full_of_finished_def live_workflows_def finished_def)

subsection \<open>The Implementer with no pending task (C4)\<close>




subsection \<open>The completion stamp (C5)\<close>

lemma node_except_completed_at [simp]: "completed_at (node_except l e s) = completed_at s"
  by (simp add: node_except_def)







subsection \<open>The token counter (C7)\<close>

lemma node_except_tokens [simp]: "total_tokens_used (node_except l e s) = total_tokens_used s"
  by (simp add: node_except_def)

lemma run_node_tokens_mono:
  assumes "\<forall>a k x. 0 \<le> tokens_used (agents env a k x)"
  shows "total_tokens_used s \<le> total_tokens_used (run_node env k n s)"
proof (cases n)
  case qa_intake
  then show ?thesis using assms
    by (simp add: qa_intake_node_def Let_def split: sum.splits)
next
  case manager
  then show ?thesis using assms by (simp add: manager_node_def Let_def)
next
  case code
  then show ?thesis using assms
    by (simp add: code_node_def code_success_def code_failure_def Let_def
        split: sum.splits option.splits prod.splits pyvalue.splits)
next
  case review
  then show ?thesis
    by (simp add: review_node_def Let_def split: sum.splits prod.splits)
qed

lemma run_graph_tokens_mono:
  assumes "\<forall>a k x. 0 \<le> tokens_used (agents env a k x)"
  shows "run_graph env fuel k n s = Some r \<Longrightarrow> total_tokens_used s \<le> total_tokens_used (final r)"
proof (induction fuel arbitrary: k n s r)
  case 0
  then show ?case by simp
next
  case (Suc fuel)
  have step: "total_tokens_used s \<le> total_tokens_used (run_node env k n s)"
    by (rule run_node_tokens_mono [OF assms])
  from Suc.prems show ?case
  proof (cases rule: run_graph_Suc_cases)
    case (continue l n' r')
    from Suc.IH [OF continue(3)] step continue(4) show ?thesis by simp
  qed (use step in simp_all)
qed

text \<open>
  Counterexample to C7 as stated: \<open>tokens_used\<close> is an unchecked integer, and an Intake
  result that reports \<open>- 5\<close> takes the counter from 0 to \<open>- 5\<close>.
\<close>

theorem negative_tokens_counterexample:
  "total_tokens_used running_state = 0
   \<and> total_tokens_used (run_node negative_env 0 qa_intake running_state) = - 5
   \<and> map_option (\<lambda>m. map_option total_tokens_used (map_of (active_workflows m) ''w1''))
        (execute_workflow negative_env 10 one_pending ''w1'') = Some (Some 152)"
  by code_simp

text \<open>
  C7, amended. For every workflow whose stage results all report a non-negative
  \<open>tokens_used\<close>, the counter \<open>total_tokens_used\<close> never decreases: not in any node
  execution, not over any run of the graph, and not over \<open>_execute_workflow\<close>.
\<close>

theorem total_tokens_monotone:
  assumes "\<forall>a k x. 0 \<le> tokens_used (agents env a k x)"
  shows "total_tokens_used s \<le> total_tokens_used (run_node env k n s)
     \<and> (\<forall>r. run_graph env fuel k n s = Some r \<longrightarrow>
           total_tokens_used s \<le> total_tokens_used (final r))
     \<and> (\<forall>m'. map_of (active_workflows m) wid = Some s \<and> execute_workflow env fuel m wid = Some m' \<longrightarrow>
           (\<exists>s'. map_of (active_workflows m') wid = Some s'
                \<and> total_tokens_used s \<le> total_tokens_used s'))"
proof (intro conjI allI impI)
  show "total_tokens_used s \<le> total_tokens_used (run_node env k n s)"
    by (rule run_node_tokens_mono [OF assms])
next
  fix r assume "run_graph env fuel k n s = Some r"
  then show "total_tokens_used s \<le> total_tokens_used (final r)"
    by (rule run_graph_tokens_mono [OF assms])
next
  fix m'
  assume a: "map_of (active_workflows m) wid = Some s \<and> execute_workflow env fuel m wid = Some m'"
  then obtain r where
    r: "run_graph env fuel 0 qa_intake (s\<lparr>WorkflowState.status := RUNNING\<rparr>) = Some r"
    by (auto simp: execute_workflow_def split: option.splits)
  from run_graph_tokens_mono [OF assms r]
  have "total_tokens_used s \<le> total_tokens_used (final r)" by simp
  with a r show "\<exists>s'. map_of (active_workflows m') wid = Some s'
                \<and> total_tokens_used s \<le> total_tokens_used s'"
    by (auto simp: execute_workflow_def update_conv' split: option.splits if_splits)
qed

theorem total_tokens_monotone_witness:
  "(\<forall>a k x. 0 \<le> tokens_used (agents scenario_env a k x))
   \<and> total_tokens_used running_state
       \<le> total_tokens_used (run_node scenario_env 0 qa_intake running_state)
   \<and> (\<exists>r. run_graph scenario_env 10 0 qa_intake running_state = Some r
         \<and> total_tokens_used running_state \<le> total_tokens_used (final r)
         \<and> total_tokens_used (final r) = 167)"
proof -
  have h: "\<forall>a k x. 0 \<le> tokens_used (agents scenario_env a k x)"
    by (simp add: scenario_env_def fixed_env_def result_ok_def)
  have "run_graph scenario_env 10 0 qa_intake running_state \<noteq> None" by code_simp
  then obtain r where r: "run_graph scenario_env 10 0 qa_intake running_state = Some r" by blast
  have "map_option (\<lambda>r. total_tokens_used (final r))
      (run_graph scenario_env 10 0 qa_intake running_state) = Some 167"
    by code_simp
  with r have t: "total_tokens_used (final r) = 167" by simp
  from total_tokens_monotone [OF h, of running_state 0 qa_intake 10] r t h show ?thesis by blast
qed


section \<open>Properties of the status query\<close>

lemma val_within_mono: "val_within lo hi v \<Longrightarrow> lo' \<le> lo \<Longrightarrow> hi \<le> hi' \<Longrightarrow> val_within lo' hi' v"
  by (cases v) auto

lemma vals_within_mono:
  "list_all (val_within lo hi) vs \<Longrightarrow> lo' \<le> lo \<Longrightarrow> hi \<le> hi' \<Longrightarrow> list_all (val_within lo' hi') vs"
  by (auto simp: list_all_iff intro: val_within_mono)

lemma obj_within_mono: "obj_within lo hi ob \<Longrightarrow> lo' \<le> lo \<Longrightarrow> hi \<le> hi' \<Longrightarrow> obj_within lo' hi' ob"
  unfolding obj_within_def by (rule vals_within_mono)

lemma objs_within_mono:
  "list_all (obj_within lo hi) obs \<Longrightarrow> lo' \<le> lo \<Longrightarrow> hi \<le> hi' \<Longrightarrow> list_all (obj_within lo' hi') obs"
  by (auto simp: list_all_iff intro: obj_within_mono)

lemma extends_refl: "extends h h"
  by (simp add: extends_def)

lemma extends_length: "extends h h' \<Longrightarrow> length h \<le> length h'"
  by (auto simp: extends_def)

lemma extends_trans:
  assumes "extends h h1" "extends h1 h2"
  shows "extends h h2"
proof -
  from assms obtain e1 e2 where e1: "h1 = h @ e1" "list_all (obj_within (length h) (length h1)) e1"
    and e2: "h2 = h1 @ e2" "list_all (obj_within (length h1) (length h2)) e2"
    by (auto simp: extends_def)
  have "list_all (obj_within (length h) (length h2)) e1"
    using e1(2) e2(1) by (auto intro: objs_within_mono)
  moreover have "list_all (obj_within (length h) (length h2)) e2"
    using e2(2) e1(1) by (auto intro: objs_within_mono)
  ultimately show ?thesis using e1(1) e2(1) by (auto simp: extends_def)
qed

lemma extends_snoc:
  assumes "extends h h'" "list_all (val_within (length h) (length h')) (obj_vals ob)"
  shows "extends h (h' @ [ob])"
proof -
  from assms(1) obtain e where e: "h' = h @ e" "list_all (obj_within (length h) (length h')) e"
    by (auto simp: extends_def)
  have "list_all (obj_within (length h) (Suc (length h'))) e"
    using e(2) by (auto intro: objs_within_mono)
  moreover have "obj_within (length h) (Suc (length h')) ob"
    using assms(2) unfolding obj_within_def by (auto intro: vals_within_mono)
  ultimately show ?thesis using e(1) by (auto simp: extends_def)
qed

lemma zip_vals: "length ks = length vs \<Longrightarrow> map snd (zip ks vs) = vs"
  by (simp add: map_snd_zip)

lemma asdict_fresh:
  shows "asdict_inner d h v = Some (h', v') \<Longrightarrow>
      extends h h' \<and> val_within (length h) (length h') v'"
    and "asdict_items d h vs = Some (h', vs') \<Longrightarrow>
      extends h h' \<and> list_all (val_within (length h) (length h')) vs' \<and> length vs' = length vs"
proof (induction d h v and d h vs arbitrary: h' v' and h' vs' rule: asdict_inner_asdict_items.induct)
  case (1 h a)
  then show ?case by simp
next
  case (2 d h a)
  from "2.prems" have a: "a < length h" by (simp split: if_splits)
  show ?case
  proof (cases "h ! a")
    case (HList vs)
    with "2.prems" a obtain h1 vs1 where
      it: "asdict_items d h vs = Some (h1, vs1)" and res: "h' = h1 @ [HList vs1]" "v' = HRef (length h1)"
      by (auto split: option.splits)
    from "2.IH"(2) [OF a HList it] have ext: "extends h h1"
      and w: "list_all (val_within (length h) (length h1)) vs1" by simp_all
    from extends_snoc [OF ext, of "HList vs1"] w extends_length [OF ext] res
    show ?thesis by simp
  next
    case (HDict kvs)
    with "2.prems" a obtain h1 vs1 where
      it: "asdict_items d h (map snd kvs) = Some (h1, vs1)"
      and res: "h' = h1 @ [HDict (zip (map fst kvs) vs1)]" "v' = HRef (length h1)"
      by (auto split: option.splits)
    from "2.IH"(1) [OF a HDict it] have ext: "extends h h1"
      and w: "list_all (val_within (length h) (length h1)) vs1" and len: "length vs1 = length kvs"
      by simp_all
    from extends_snoc [OF ext, of "HDict (zip (map fst kvs) vs1)"] w len extends_length [OF ext] res
    show ?thesis by (simp add: zip_vals)
  next
    case (HData kvs)
    with "2.prems" a obtain h1 vs1 where
      it: "asdict_items d h (map snd kvs) = Some (h1, vs1)"
      and res: "h' = h1 @ [HDict (zip (map fst kvs) vs1)]" "v' = HRef (length h1)"
      by (auto split: option.splits)
    from "2.IH"(3) [OF a HData it] have ext: "extends h h1"
      and w: "list_all (val_within (length h) (length h1)) vs1" and len: "length vs1 = length kvs"
      by simp_all
    from extends_snoc [OF ext, of "HDict (zip (map fst kvs) vs1)"] w len extends_length [OF ext] res
    show ?thesis by (simp add: zip_vals)
  qed
next
  case (4 d h)
  then show ?case by (simp add: extends_refl)
next
  case (5 d h v vs)
  from "5.prems" obtain h1 v1 h2 vs2 where
    a: "asdict_inner d h v = Some (h1, v1)" and b: "asdict_items d h1 vs = Some (h2, vs2)"
    and res: "h' = h2" "vs' = v1 # vs2"
    by (auto split: option.splits)
  from "5.IH"(1) [OF a] have e1: "extends h h1" and w1: "val_within (length h) (length h1) v1"
    by simp_all
  from "5.IH"(2) [OF a refl b] have e2: "extends h1 h2"
    and w2: "list_all (val_within (length h1) (length h2)) vs2" and len: "length vs2 = length vs"
    by simp_all
  have "val_within (length h) (length h2) v1"
    using w1 extends_length [OF e2] by (auto intro: val_within_mono)
  moreover have "list_all (val_within (length h) (length h2)) vs2"
    using w2 extends_length [OF e1] by (auto intro: vals_within_mono)
  ultimately show ?case using extends_trans [OF e1 e2] len res by simp
qed (simp_all add: extends_refl)

lemma update_vals_within:
  "list_all P (map snd kvs) \<Longrightarrow> P v \<Longrightarrow> list_all P (map snd (AList.update k v kvs))"
  by (induction kvs) auto

lemma extends_prefix: "extends h h' \<Longrightarrow> b < length h \<Longrightarrow> h' ! b = h ! b"
  by (auto simp: extends_def nth_append)

lemma extends_new_obj:
  "extends h h' \<Longrightarrow> length h \<le> a \<Longrightarrow> a < length h' \<Longrightarrow> obj_within (length h) (length h') (h' ! a)"
  by (auto simp: extends_def nth_append list_all_length)

lemma extends_update:
  assumes "extends h h'" "length h \<le> a" "obj_within (length h) (length h') ob"
  shows "extends h (h'[a := ob])"
proof -
  from assms(1) obtain e where e: "h' = h @ e" "list_all (obj_within (length h) (length h')) e"
    by (auto simp: extends_def)
  have "h'[a := ob] = h @ e[a - length h := ob]"
    using e(1) assms(2) by (simp add: list_update_append)
  moreover have "list_all (obj_within (length h) (length h')) (e[a - length h := ob])"
    using e(2) assms(3) set_update_subset_insert [of e "a - length h" ob]
    by (auto simp: list_all_iff)
  ultimately show ?thesis using e(1) by (auto simp: extends_def)
qed

lemma to_dict_fresh:
  assumes "to_dict d h a = Some (h', snap)"
  shows "extends h h' \<and> (\<exists>a'. snap = HRef a' \<and> length h \<le> a' \<and> a' < length h')"
proof -
  from assms obtain h1 a' kvs st where
    cp: "asdict_inner d h (HRef a) = Some (h1, HRef a')" and top: "h1 ! a' = HDict kvs"
    and res: "h' = h1[a' := HDict (AList.update ''status'' (HStr (WorkflowStatus_value st)) kvs)]"
      "snap = HRef a'"
    by (auto simp: to_dict_def split: option.splits prod.splits hval.splits hobj.splits)
  from asdict_fresh(1) [OF cp] have ext: "extends h h1" and a': "length h \<le> a'" "a' < length h1"
    by simp_all
  from extends_new_obj [OF ext a'] top
  have "list_all (val_within (length h) (length h1)) (map snd kvs)" by (simp add: obj_within_def)
  then have "obj_within (length h) (length h1)
      (HDict (AList.update ''status'' (HStr (WorkflowStatus_value st)) kvs))"
    by (simp add: obj_within_def update_vals_within)
  from extends_update [OF ext a'(1) this] res a' show ?thesis by simp
qed

lemma reach_fresh:
  assumes "extends h h'" "val_within (length h) (length h') v" "a \<in> reach h' v"
  shows "length h \<le> a \<and> a < length h'"
  using assms(3)
proof (induction rule: reach.induct)
  case (root a)
  with assms(2) show ?case by simp
next
  case (step a b)
  from extends_new_obj [OF assms(1)] step.IH have "obj_within (length h) (length h') (h' ! a)" by simp
  with step.hyps(3) show ?case by (auto simp: obj_within_def list_all_iff)
qed

lemma reach_old:
  assumes "extends h h'" "heap_closed h" "obj < length h" "b \<in> reach h' (HRef obj)"
  shows "b < length h"
  using assms(4)
proof (induction rule: reach.induct)
  case (root a)
  with assms(3) show ?case by simp
next
  case (step a b)
  from step.IH have "h' ! a = h ! a" by (rule extends_prefix [OF assms(1)])
  moreover from assms(2) step.IH have "obj_within 0 (length h) (h ! a)"
    by (simp add: heap_closed_def list_all_length)
  ultimately show ?case using step.hyps(3) by (auto simp: obj_within_def list_all_iff)
qed

text \<open>
  C8. A status query returns a snapshot. For every registered workflow id whose state
  lives in a closed heap, a query that returns gives a new dictionary, leaves every
  object that existed before as it was, and shares no object with the stored state: a
  write to any object reachable from the returned dictionary leaves every object
  reachable from the stored state as it was before the query, and a write to any object
  reachable from the stored state leaves every object of the returned structure as the
  query built it.
\<close>

theorem status_snapshot_isolated:
  assumes "map_of reg wid = Some obj" "obj < length h" "heap_closed h"
    and "get_workflow_status d reg h wid = Some (h', snap)"
  shows "(\<exists>a. snap = HRef a \<and> length h \<le> a \<and> a < length h')
    \<and> (\<forall>b < length h. h' ! b = h ! b)
    \<and> (\<forall>a \<in> reach h' snap. \<forall>b \<in> reach h' (HRef obj). \<forall>ob.
          a \<noteq> b \<and> (h'[a := ob]) ! b = h ! b \<and> (h'[b := ob]) ! a = h' ! a)"
proof -
  from assms(1,4) have td: "to_dict d h obj = Some (h', snap)"
    by (simp add: get_workflow_status_def)
  from to_dict_fresh [OF td] have ext: "extends h h'"
    and new: "\<exists>a. snap = HRef a \<and> length h \<le> a \<and> a < length h'"
    by simp_all
  from new have w: "val_within (length h) (length h') snap" by auto
  have old: "\<forall>b < length h. h' ! b = h ! b" using extends_prefix [OF ext] by simp
  {
    fix a b ob
    assume a: "a \<in> reach h' snap" and b: "b \<in> reach h' (HRef obj)"
    from reach_fresh [OF ext w a] have a': "length h \<le> a" "a < length h'" by simp_all
    from reach_old [OF ext assms(3,2) b] have b': "b < length h" .
    from a' b' old have "a \<noteq> b \<and> (h'[a := ob]) ! b = h ! b \<and> (h'[b := ob]) ! a = h' ! a"
      by simp
  }
  with old new show ?thesis by blast
qed

theorem status_snapshot_isolated_witness:
  "map_of [(''w1'', 6)] ''w1'' = Some (6::nat) \<and> 6 < length heap0 \<and> heap_closed heap0
   \<and> get_workflow_status 5 [(''w1'', 6)] heap0 ''w1'' = Some (heap1, HRef 13)
   \<and> (heap1[13 := HDict []]) ! 6 = heap0 ! 6
   \<and> (heap1[6 := HData []]) ! 13 = heap1 ! 13"
proof -
  have r: "map_of [(''w1'', 6)] ''w1'' = Some (6::nat)" by simp
  have l: "6 < length heap0" by (simp add: heap0_def)
  have c: "heap_closed heap0" by code_simp
  have g: "get_workflow_status 5 [(''w1'', 6)] heap0 ''w1'' = Some (heap1, HRef 13)" by code_simp
  have "13 \<in> reach heap1 (HRef 13)" "6 \<in> reach heap1 (HRef 6)" by (simp_all add: reach.root)
  with status_snapshot_isolated [OF r l c g] r l c g show ?thesis by blast
qed

end
